theory Spec2Isabelle
  imports Main "HOL-Library.Word"
begin

section \<open>JavaScript values\<close>

text \<open>
  The helpers of \<^verbatim>\<open>src/helpers.js\<close> branch on the dynamic type of their arguments, so the
  arguments are values of a datatype of JavaScript values: \<^verbatim>\<open>undefined\<close>, \<^verbatim>\<open>null\<close>,
  booleans, numbers, strings, RegExp objects and arrays of such values.
  \<^item> Strings are lists of characters (code units below 256).
  \<^item> Numbers are the integral numbers, the two infinities and NaN: the values of a year
    bound. \<open>Finite n\<close> prints in decimal, as JavaScript prints an integral number of
    magnitude below \<open>10\<^sup>2\<^sup>1\<close>.
  \<^item> A RegExp object has no flags, so that \<^verbatim>\<open>test\<close> keeps no state between calls. It holds
    its pattern text and the matcher compiled from it (the internal slots
    [[OriginalSource]] and [[RegExpMatcher]] of ECMAScript).
  An exception is a value of \<open>js_error\<close>. \<open>Unsupported\<close> is no JavaScript error: it marks
  a pattern outside the part of the pattern grammar that the parser below covers.
\<close>

datatype js_error = TypeError | SyntaxError | Unsupported | Error string

datatype js_number = Finite int | PosInfinity | NegInfinity | NaN

datatype rx =
    REmpty
  | RChar char
  | RDot
  | RBol
  | REol
  | RSeq rx rx
  | RAlt rx rx
  | ROpt rx
  | RStar rx
  | RPlus rx

record regexp =
  OriginalSource :: string
  RegExpMatcher :: rx

datatype js_value =
    JUndefined
  | JNull
  | JBoolean bool
  | JNumber js_number
  | JString string
  | JRegExp regexp
  | JArray "js_value list"

section \<open>The regular expression engine\<close>

subsection \<open>Matching\<close>

definition LineTerminator :: "char \<Rightarrow> bool" where
  "LineTerminator c = (c = CHR 0x0A \<or> c = CHR 0x0D)"

text \<open>
  \<open>closure f k acc\<close> adds to \<open>acc\<close> the positions reached by at most \<open>k\<close> further
  iterations of \<open>f\<close>.
\<close>

fun closure :: "(nat \<Rightarrow> nat list) \<Rightarrow> nat \<Rightarrow> nat list \<Rightarrow> nat list" where
  "closure f 0 acc = acc"
| "closure f (Suc k) acc = closure f k (remdups (acc @ concat (map f acc)))"

text \<open>
  \<open>ends r s i\<close> lists the positions at which a match of \<open>r\<close> that starts at position
  \<open>i\<close> of the input \<open>s\<close> can end. Without flags, \<^verbatim>\<open>^\<close> holds at position 0 only and
  \<^verbatim>\<open>$\<close> at the end of the input only, and the dot matches any character but a line
  terminator.
\<close>

primrec ends :: "rx \<Rightarrow> string \<Rightarrow> nat \<Rightarrow> nat list" where
  "ends REmpty s i = [i]"
| "ends (RChar c) s i = (if i < length s \<and> s ! i = c then [Suc i] else [])"
| "ends RDot s i = (if i < length s \<and> \<not> LineTerminator (s ! i) then [Suc i] else [])"
| "ends RBol s i = (if i = 0 then [i] else [])"
| "ends REol s i = (if i = length s then [i] else [])"
| "ends (RSeq a b) s i = concat (map (ends b s) (ends a s i))"
| "ends (RAlt a b) s i = ends a s i @ ends b s i"
| "ends (ROpt a) s i = ends a s i @ [i]"
| "ends (RStar a) s i = closure (ends a s) (length s) [i]"
| "ends (RPlus a) s i = closure (ends a s) (length s) (ends a s i)"

text \<open>
  \<^verbatim>\<open>RegExp.prototype.test\<close> of a RegExp without flags: the search starts at index 0 and
  tries every start position up to the end of the input.
\<close>

definition RegExp_test :: "regexp \<Rightarrow> string \<Rightarrow> bool" where
  "RegExp_test r s = list_ex (\<lambda>i. ends (RegExpMatcher r) s i \<noteq> []) [0..<Suc (length s)]"

subsection \<open>Parsing a pattern\<close>

text \<open>
  \<^verbatim>\<open>new RegExp(pattern)\<close> parses the pattern text. The parser reads the pattern from left
  to right and keeps, for the disjunction being read, the alternatives already complete
  and the terms of the current alternative (both newest first), and below it the frames
  of the enclosing groups. It covers characters, identity and control escapes, the dot,
  \<^verbatim>\<open>^\<close> and \<^verbatim>\<open>$\<close>, groups, alternation and the quantifiers \<^verbatim>\<open>*\<close>, \<^verbatim>\<open>+\<close> and \<^verbatim>\<open>?\<close> (greedy
  or lazy: the two agree on whether there is a match). Character classes, braces
  quantifiers, lookaround, backreferences and the other escapes are reported as
  \<open>Unsupported\<close>.
\<close>

datatype last_term = NoAtom | AfterAtom | AfterQuantifier

type_synonym frame = "rx list \<times> rx list"

definition SyntaxCharacter :: "char \<Rightarrow> bool" where
  "SyntaxCharacter c = (c \<in> set (CHR 0x5C # ''^$*+?.()|[]{}''))"

definition Alternative :: "rx list \<Rightarrow> rx" where
  "Alternative ts = foldr RSeq ts REmpty"

fun Disjunction :: "rx list \<Rightarrow> rx" where
  "Disjunction [] = REmpty"
| "Disjunction [a] = a"
| "Disjunction (a # b # bs) = RAlt a (Disjunction (b # bs))"

definition close_frame :: "frame \<Rightarrow> rx" where
  "close_frame f = Disjunction (rev (Alternative (rev (snd f)) # fst f))"

definition add_term :: "rx \<Rightarrow> frame \<Rightarrow> frame" where
  "add_term t f = (fst f, t # snd f)"

definition next_alternative :: "frame \<Rightarrow> frame" where
  "next_alternative f = (Alternative (rev (snd f)) # fst f, [])"

definition ControlEscape :: "char \<Rightarrow> char option" where
  "ControlEscape c =
     (if c = CHR ''t'' then Some (CHR 0x09)
      else if c = CHR ''n'' then Some (CHR 0x0A)
      else if c = CHR ''v'' then Some (CHR 0x0B)
      else if c = CHR ''f'' then Some (CHR 0x0C)
      else if c = CHR ''r'' then Some (CHR 0x0D)
      else None)"

fun quantify :: "(rx \<Rightarrow> rx) \<Rightarrow> frame \<Rightarrow> frame" where
  "quantify q (alts, t # ts) = (alts, q t # ts)"
| "quantify q (alts, []) = (alts, [])"

fun parse_pattern :: "string \<Rightarrow> frame \<Rightarrow> frame list \<Rightarrow> last_term \<Rightarrow> js_error + rx" where
  "parse_pattern [] cur parents l =
     (if parents = [] then Inr (close_frame cur) else Inl SyntaxError)"
| "parse_pattern (c # cs) cur parents l =
     (if c = CHR ''('' then
        (if take 2 cs = ''?:'' then parse_pattern (drop 2 cs) ([], []) (cur # parents) NoAtom
         else if take 1 cs = ''?'' then Inl Unsupported
         else parse_pattern cs ([], []) (cur # parents) NoAtom)
      else if c = CHR '')'' then
        (case parents of
           [] \<Rightarrow> Inl SyntaxError
         | p # ps \<Rightarrow> parse_pattern cs (add_term (close_frame cur) p) ps AfterAtom)
      else if c = CHR ''|'' then parse_pattern cs (next_alternative cur) parents NoAtom
      else if c = CHR ''*'' then
        (if l = AfterAtom then parse_pattern cs (quantify RStar cur) parents AfterQuantifier
         else Inl SyntaxError)
      else if c = CHR ''+'' then
        (if l = AfterAtom then parse_pattern cs (quantify RPlus cur) parents AfterQuantifier
         else Inl SyntaxError)
      else if c = CHR ''?'' then
        (if l = AfterAtom then parse_pattern cs (quantify ROpt cur) parents AfterQuantifier
         else if l = AfterQuantifier then parse_pattern cs cur parents NoAtom
         else Inl SyntaxError)
      else if c = CHR ''^'' then parse_pattern cs (add_term RBol cur) parents NoAtom
      else if c = CHR ''$'' then parse_pattern cs (add_term REol cur) parents NoAtom
      else if c = CHR ''.'' then parse_pattern cs (add_term RDot cur) parents AfterAtom
      else if c = CHR 0x5C then
        (case cs of
           [] \<Rightarrow> Inl SyntaxError
         | d # ds \<Rightarrow>
             if SyntaxCharacter d \<or> d = CHR ''/''
             then parse_pattern ds (add_term (RChar d) cur) parents AfterAtom
             else (case ControlEscape d of
                     Some e \<Rightarrow> parse_pattern ds (add_term (RChar e) cur) parents AfterAtom
                   | None \<Rightarrow> Inl Unsupported))
      else if c = CHR ''['' \<or> c = CHR ''{'' then Inl Unsupported
      else parse_pattern cs (add_term (RChar c) cur) parents AfterAtom)"

definition new_RegExp :: "string \<Rightarrow> js_error + regexp" where
  "new_RegExp pattern =
     (case parse_pattern pattern ([], []) [] NoAtom of
        Inl e \<Rightarrow> Inl e
      | Inr m \<Rightarrow> Inr \<lparr>OriginalSource = pattern, RegExpMatcher = m\<rparr>)"

text \<open>
  The literal \<^verbatim>\<open>/.?/\<close> of the source is parsed when the module is loaded; this is the
  object it denotes.
\<close>

definition match_anything :: regexp where
  "match_anything = \<lparr>OriginalSource = ''.?'', RegExpMatcher = RSeq (ROpt RDot) REmpty\<rparr>"

subsection \<open>Conversion to strings\<close>

definition digit_char :: "nat \<Rightarrow> char" where
  "digit_char d = ''0123456789'' ! d"

fun decimal :: "nat \<Rightarrow> string" where
  "decimal n = (if n < 10 then [digit_char n] else decimal (n div 10) @ [digit_char (n mod 10)])"

declare decimal.simps [simp del]

fun Number_toString :: "js_number \<Rightarrow> string" where
  "Number_toString (Finite n) = (if n < 0 then CHR ''-'' # decimal (nat (- n)) else decimal (nat n))"
| "Number_toString PosInfinity = ''Infinity''"
| "Number_toString NegInfinity = ''-Infinity''"
| "Number_toString NaN = ''NaN''"

fun Array_join :: "string \<Rightarrow> string list \<Rightarrow> string" where
  "Array_join sep [] = []"
| "Array_join sep [x] = x"
| "Array_join sep (x # y # ys) = x @ sep @ Array_join sep (y # ys)"

text \<open>
  The \<^verbatim>\<open>source\<close> property of a RegExp: the pattern text in a form that can stand between
  the slashes of a literal. The empty pattern reads \<^verbatim>\<open>(?:)\<close>; a slash outside a class
  and a line terminator are escaped.
\<close>

fun EscapeRegExpPattern :: "string \<Rightarrow> bool \<Rightarrow> string" where
  "EscapeRegExpPattern [] in_class = []"
| "EscapeRegExpPattern (c # cs) in_class =
     (if c = CHR 0x5C then
        (case cs of
           [] \<Rightarrow> [c]
         | d # ds \<Rightarrow>
             c # (if d = CHR 0x0A then ''n'' else if d = CHR 0x0D then ''r'' else [d])
               @ EscapeRegExpPattern ds in_class)
      else if c = CHR ''/'' \<and> \<not> in_class then CHR 0x5C # c # EscapeRegExpPattern cs in_class
      else if c = CHR ''['' then c # EscapeRegExpPattern cs True
      else if c = CHR '']'' then c # EscapeRegExpPattern cs False
      else if c = CHR 0x0A then CHR 0x5C # CHR ''n'' # EscapeRegExpPattern cs in_class
      else if c = CHR 0x0D then CHR 0x5C # CHR ''r'' # EscapeRegExpPattern cs in_class
      else c # EscapeRegExpPattern cs in_class)"

definition RegExp_source :: "regexp \<Rightarrow> string" where
  "RegExp_source r =
     (if OriginalSource r = [] then ''(?:)'' else EscapeRegExpPattern (OriginalSource r) False)"

definition RegExp_toString :: "regexp \<Rightarrow> string" where
  "RegExp_toString r = ''/'' @ RegExp_source r @ ''/''"

text \<open>
  \<open>ToString\<close> is the conversion \<^verbatim>\<open>String(v)\<close>. An array is the comma-joined conversion of
  its elements, where \<^verbatim>\<open>undefined\<close> and \<^verbatim>\<open>null\<close> elements give the empty string.
\<close>

fun ToString :: "js_value \<Rightarrow> string" where
  "ToString JUndefined = ''undefined''"
| "ToString JNull = ''null''"
| "ToString (JBoolean b) = (if b then ''true'' else ''false'')"
| "ToString (JNumber n) = Number_toString n"
| "ToString (JString s) = s"
| "ToString (JRegExp r) = RegExp_toString r"
| "ToString (JArray xs) =
     Array_join '',''
       (map (\<lambda>x. if x = JUndefined \<or> x = JNull then [] else ToString x) xs)"

text \<open>The method call \<^verbatim>\<open>v.toString()\<close> throws on \<^verbatim>\<open>undefined\<close> and \<^verbatim>\<open>null\<close>.\<close>

definition toString :: "js_value \<Rightarrow> js_error + string" where
  "toString v = (if v = JUndefined \<or> v = JNull then Inl TypeError else Inr (ToString v))"

fun ToBoolean :: "js_value \<Rightarrow> bool" where
  "ToBoolean JUndefined = False"
| "ToBoolean JNull = False"
| "ToBoolean (JBoolean b) = b"
| "ToBoolean (JNumber n) = (n \<noteq> Finite 0 \<and> n \<noteq> NaN)"
| "ToBoolean (JString s) = (s \<noteq> [])"
| "ToBoolean (JRegExp r) = True"
| "ToBoolean (JArray xs) = True"

fun instanceof_RegExp :: "js_value \<Rightarrow> bool" where
  "instanceof_RegExp (JRegExp r) = True"
| "instanceof_RegExp v = False"

fun Array_isArray :: "js_value \<Rightarrow> bool" where
  "Array_isArray (JArray arr) = True"
| "Array_isArray v = False"

section \<open>Matcher compilation\<close>

text \<open>
  The polyfill \<^verbatim>\<open>RegExp.escape\<close> that the module installs when the runtime has none:
  every character of the class \<^verbatim>\<open>[\\^$*+?.()|[\]{}]\<close> is replaced by a backslash followed
  by the character.
\<close>

definition escape_class :: "char \<Rightarrow> bool" where
  "escape_class c = (c \<in> set (CHR 0x5C # ''^$*+?.()|[]{}''))"

definition RegExp_escape :: "string \<Rightarrow> string" where
  "RegExp_escape s = concat (map (\<lambda>c. if escape_class c then [CHR 0x5C, c] else [c]) s)"

definition exactRegExp :: "string \<Rightarrow> js_error + regexp" where
  "exactRegExp pattern = new_RegExp (''^(?:'' @ pattern @ '')$'')"

text \<open>\<^verbatim>\<open>arr.map(value => RegExp.escape(value.toString()))\<close>: the first throw ends the map.\<close>

fun map_escape :: "js_value list \<Rightarrow> js_error + string list" where
  "map_escape [] = Inr []"
| "map_escape (v # vs) =
     (case toString v of
        Inl e \<Rightarrow> Inl e
      | Inr s \<Rightarrow>
          (case map_escape vs of
             Inl e \<Rightarrow> Inl e
           | Inr ss \<Rightarrow> Inr (RegExp_escape s # ss)))"

definition arrayRegExp :: "js_value list \<Rightarrow> js_error + regexp" where
  "arrayRegExp arr =
     (case map_escape arr of
        Inl e \<Rightarrow> Inl e
      | Inr ss \<Rightarrow> exactRegExp (Array_join ''|'' ss))"

text \<open>
  The \<^verbatim>\<open>forEach\<close> of \<open>createMatchers\<close> pushes every RegExp to \<open>ret\<close> and every other
  element to \<open>strings\<close>.
\<close>

fun forEach_push :: "js_value list \<Rightarrow> regexp list \<times> js_value list \<Rightarrow> regexp list \<times> js_value list" where
  "forEach_push [] acc = acc"
| "forEach_push (JRegExp r # mzs) (ret, strings) = forEach_push mzs (ret @ [r], strings)"
| "forEach_push (mz # mzs) (ret, strings) = forEach_push mzs (ret, strings @ [mz])"

definition createMatchers :: "js_value \<Rightarrow> js_error + regexp list" where
  "createMatchers matchItems =
     (if \<not> ToBoolean matchItems then Inr [match_anything]
      else case matchItems of
        JRegExp r \<Rightarrow> Inr [r]
      | JArray arr \<Rightarrow>
          (if \<not> list_ex instanceof_RegExp arr then
             (case arrayRegExp arr of Inl e \<Rightarrow> Inl e | Inr r \<Rightarrow> Inr [r])
           else
             (case forEach_push arr ([], []) of
                (ret, strings) \<Rightarrow>
                  if strings \<noteq> [] then
                    (case arrayRegExp strings of Inl e \<Rightarrow> Inl e | Inr r \<Rightarrow> Inr (ret @ [r]))
                  else Inr ret))
      | _ \<Rightarrow>
          (case toString matchItems of
             Inl e \<Rightarrow> Inl e
           | Inr s \<Rightarrow>
               (case exactRegExp (RegExp_escape s) of Inl e \<Rightarrow> Inl e | Inr r \<Rightarrow> Inr [r])))"

section \<open>Match evaluation\<close>

text \<open>
  An optional argument is \<^verbatim>\<open>undefined\<close> when it is left out; \<^verbatim>\<open>null\<close> is a value of its
  own, which \<^verbatim>\<open>!== undefined\<close> tells apart.
\<close>

datatype 'a js_optional = Undefined | Null | Defined 'a

function anyMatch :: "string \<Rightarrow> regexp list js_optional \<Rightarrow> regexp list js_optional \<Rightarrow> bool" where
  "anyMatch item regExpMatchers extraMatchers =
     (if extraMatchers \<noteq> Undefined then
        anyMatch item regExpMatchers Undefined \<and> anyMatch item extraMatchers Undefined
      else
        (case regExpMatchers of
           Undefined \<Rightarrow> True
         | Null \<Rightarrow> True
         | Defined ms \<Rightarrow>
             if length ms = 0 then True
             else list_ex (\<lambda>matcher. RegExp_test matcher item) ms))"
  by pat_completeness auto
termination
  by (relation "measure (\<lambda>(item, regExpMatchers, extraMatchers). if extraMatchers = Undefined then 0 else 1)") auto

declare anyMatch.simps [simp del]

section \<open>The cache key\<close>

record tzdata =
  version :: string

text \<open>
  The part of the plugin's options that \<open>cacheKey\<close> reads. The year bounds are numbers
  (their defaults are the two infinities).
\<close>

record config =
  matchZones :: js_value
  matchCountries :: js_value
  startYear :: js_number
  endYear :: js_number

definition hex_char :: "nat \<Rightarrow> char" where
  "hex_char n = ''0123456789abcdef'' ! n"

text \<open>\<^verbatim>\<open>JSON.stringify\<close> of a string: quoted, with the escapes of QuoteJSONString.\<close>

definition json_escape_char :: "char \<Rightarrow> string" where
  "json_escape_char c =
     (if c = CHR 0x22 then [CHR 0x5C, CHR 0x22]
      else if c = CHR 0x5C then [CHR 0x5C, CHR 0x5C]
      else if c = CHR 0x08 then [CHR 0x5C, CHR ''b'']
      else if c = CHR 0x0C then [CHR 0x5C, CHR ''f'']
      else if c = CHR 0x0A then [CHR 0x5C, CHR ''n'']
      else if c = CHR 0x0D then [CHR 0x5C, CHR ''r'']
      else if c = CHR 0x09 then [CHR 0x5C, CHR ''t'']
      else if (of_char c :: nat) < 32 then
        CHR 0x5C # ''u00'' @ [hex_char (of_char c div 16), hex_char (of_char c mod 16)]
      else [c])"

definition QuoteJSONString :: "string \<Rightarrow> string" where
  "QuoteJSONString s = CHR 0x22 # concat (map json_escape_char s) @ [CHR 0x22]"

text \<open>\<^verbatim>\<open>JSON.stringify\<close> of a number: a number that is not finite is written \<^verbatim>\<open>null\<close>.\<close>

fun JSON_number :: "js_number \<Rightarrow> string" where
  "JSON_number (Finite n) = Number_toString (Finite n)"
| "JSON_number n = ''null''"

text \<open>
  \<^verbatim>\<open>JSON.stringify\<close> of the object literal of \<open>cacheKey\<close>: the properties in the order
  in which the literal creates them.
\<close>

definition cacheKey :: "tzdata \<Rightarrow> config \<Rightarrow> string" where
  "cacheKey tz c =
     ''{'' @ QuoteJSONString ''version'' @ '':'' @ QuoteJSONString (version tz)
     @ '','' @ QuoteJSONString ''zones'' @ '':'' @ QuoteJSONString (ToString (matchZones c))
     @ '','' @ QuoteJSONString ''countries'' @ '':'' @ QuoteJSONString (ToString (matchCountries c))
     @ '','' @ QuoteJSONString ''dates'' @ '':[''
     @ JSON_number (startYear c) @ '','' @ JSON_number (endYear c) @ '']}''"

section \<open>The cache directory and the cache file\<close>

definition pluginName :: string where
  "pluginName = ''moment-timezone-data-webpack-plugin''"

text \<open>
  What the helpers use of Node and of the packages \<^verbatim>\<open>find-cache-dir\<close> and \<^verbatim>\<open>make-dir\<close>,
  over a state \<open>'w\<close> of the world outside the program (the file system, the process
  environment). A call that can throw returns the error or the result, and the world
  after it.
  \<^item> \<open>findCacheDir name w\<close> is \<^verbatim>\<open>findCacheDir({ name, create: true })\<close>: a path or
    \<^verbatim>\<open>undefined\<close>;
  \<^item> \<open>mkdir_sync p w\<close> is \<^verbatim>\<open>mkdir.sync(p)\<close>, with the error when it throws;
  \<^item> \<open>crypto_md5 s\<close> is the MD5 digest of \<open>s\<close>, 16 bytes, read as one number with the
    first byte the most significant.
\<close>

record 'w node =
  findCacheDir :: "string \<Rightarrow> 'w \<Rightarrow> (js_error + string js_optional) \<times> 'w"
  mkdir_sync :: "string js_optional \<Rightarrow> 'w \<Rightarrow> js_error option \<times> 'w"
  os_tmpdir :: "'w \<Rightarrow> string"
  path_join :: "string \<Rightarrow> string \<Rightarrow> string"
  fs_existsSync :: "string \<Rightarrow> 'w \<Rightarrow> bool"
  crypto_md5 :: "string \<Rightarrow> 128 word"

text \<open>
  The state of a run: the world, and the variable \<open>cacheDirPath\<close> that the closure of
  \<open>autoGeneratedCacheDir\<close> keeps between calls.
\<close>

record 'w state =
  world :: 'w
  cacheDirPath :: "string js_optional"

record cache_file =
  path :: string
  exists :: bool

fun truthy_path :: "string js_optional \<Rightarrow> bool" where
  "truthy_path (Defined p) = (p \<noteq> [])"
| "truthy_path v = False"

text \<open>\<^verbatim>\<open>.digest('hex')\<close>: two lower-case hexadecimal digits for each byte, in order.\<close>

definition digest_hex :: "128 word \<Rightarrow> string" where
  "digest_hex d = map (\<lambda>i. hex_char (unat (drop_bit (4 * (31 - i)) d) mod 16)) [0..<32]"

definition autoGeneratedCacheDir :: "'w node \<Rightarrow> 'w state \<Rightarrow> (js_error + string js_optional) \<times> 'w state" where
  "autoGeneratedCacheDir env st =
     (let st1 =
        (if \<not> truthy_path (cacheDirPath st) then
           (case findCacheDir env pluginName (world st) of
              (Inr p, w) \<Rightarrow> \<lparr>world = w, cacheDirPath = p\<rparr>
            | (Inl e, w) \<Rightarrow>
                \<lparr>world = w, cacheDirPath = Defined (path_join env (os_tmpdir env w) pluginName)\<rparr>)
         else st)
      in case mkdir_sync env (cacheDirPath st1) (world st1) of
           (Some e, w) \<Rightarrow> (Inl e, st1\<lparr>world := w\<rparr>)
         | (None, w) \<Rightarrow> (Inr (cacheDirPath st1), st1\<lparr>world := w\<rparr>))"

definition cacheDir :: "'w node \<Rightarrow> string js_optional \<Rightarrow> 'w state \<Rightarrow> (js_error + string js_optional) \<times> 'w state" where
  "cacheDir env dirPath st =
     (if truthy_path dirPath then
        (case mkdir_sync env dirPath (world st) of
           (Some e, w) \<Rightarrow> (Inl e, st\<lparr>world := w\<rparr>)
         | (None, w) \<Rightarrow> (Inr dirPath, st\<lparr>world := w\<rparr>))
      else autoGeneratedCacheDir env st)"

text \<open>\<^verbatim>\<open>path.join\<close> throws a TypeError when an argument is not a string.\<close>

definition cacheFile :: "'w node \<Rightarrow> tzdata \<Rightarrow> config \<Rightarrow> string js_optional \<Rightarrow> 'w state \<Rightarrow> (js_error + cache_file) \<times> 'w state" where
  "cacheFile env tz c dirPath st =
     (let key = cacheKey tz c;
          filename = digest_hex (crypto_md5 env key) @ ''.json''
      in case cacheDir env dirPath st of
           (Inl e, st') \<Rightarrow> (Inl e, st')
         | (Inr (Defined d), st') \<Rightarrow>
             (let filepath = path_join env d filename
              in (Inr \<lparr>path = filepath, exists = fs_existsSync env filepath (world st')\<rparr>, st'))
         | (Inr v, st') \<Rightarrow> (Inl TypeError, st'))"

subsection \<open>An environment for examples\<close>

text \<open>
  The world is the list of the paths that exist. \<open>findCacheDir\<close> throws when
  \<open>fails\<close> is set and creates and returns a directory under \<^verbatim>\<open>node_modules/.cache\<close>
  otherwise. The digest is a stand-in.
\<close>

definition example_node :: "bool \<Rightarrow> string list node" where
  "example_node fails =
     \<lparr>findCacheDir = (\<lambda>name w.
         if fails then (Inl (Error ''EACCES''), w)
         else (Inr (Defined (''/project/node_modules/.cache/'' @ name)),
               (''/project/node_modules/.cache/'' @ name) # w)),
      mkdir_sync = (\<lambda>p w. case p of Defined d \<Rightarrow> (None, d # w) | _ \<Rightarrow> (Some TypeError, w)),
      os_tmpdir = (\<lambda>w. ''/tmp''),
      path_join = (\<lambda>a b. a @ ''/'' @ b),
      fs_existsSync = (\<lambda>p w. p \<in> set w),
      crypto_md5 = (\<lambda>s. of_nat (length s))\<rparr>"

section \<open>The matchers of plain values\<close>

text \<open>
  The matcher of a pattern \<^verbatim>\<open>^(?:v1|...|vn)$\<close> whose alternatives are the strings
  \<open>vs\<close>, character by character: what the parser returns for the patterns that
  \<open>createMatchers\<close> builds (lemma \<open>parse_exact\<close> below).
\<close>

definition literal :: "string \<Rightarrow> rx" where
  "literal v = Alternative (map RChar v)"

definition exact_matcher :: "string list \<Rightarrow> rx" where
  "exact_matcher vs = RSeq RBol (RSeq (Disjunction (map literal vs)) (RSeq REol REmpty))"

text \<open>The RegExp literals \<^verbatim>\<open>/^Europe\//\<close> and \<^verbatim>\<open>/^X/\<close>, for the examples.\<close>

definition Europe :: regexp where
  "Europe = \<lparr>OriginalSource = ''^Europe'' @ [CHR 0x5C] @ ''/'',
     RegExpMatcher = Alternative (RBol # map RChar ''Europe/'')\<rparr>"

definition starts_with_X :: regexp where
  "starts_with_X = \<lparr>OriginalSource = ''^X'', RegExpMatcher = Alternative [RBol, RChar CHR ''X'']\<rparr>"

text \<open>The matcher that \<^verbatim>\<open>["X","Y"]\<close> compiles to.\<close>

definition X_or_Y :: regexp where
  "X_or_Y = \<lparr>OriginalSource = ''^(?:X|Y)$'', RegExpMatcher = exact_matcher [''X'', ''Y'']\<rparr>"

text \<open>
  A dataset version, two configurations that differ in how the one zone is given, and
  the state of a process that has not yet looked for its cache directory.
\<close>

definition example_tzdata :: tzdata where
  "example_tzdata = \<lparr>version = ''2023a''\<rparr>"

definition config_string :: config where
  "config_string = \<lparr>matchZones = JString ''Europe/London'', matchCountries = JUndefined,
     startYear = Finite 2000, endYear = Finite 2020\<rparr>"

definition config_array :: config where
  "config_array = \<lparr>matchZones = JArray [JString ''Europe/London''], matchCountries = JUndefined,
     startYear = Finite 2000, endYear = Finite 2020\<rparr>"

definition fresh_state :: "string list state" where
  "fresh_state = \<lparr>world = [], cacheDirPath = Undefined\<rparr>"

section \<open>Properties of the regular expression engine\<close>

lemma new_RegExp_match_anything: "new_RegExp ''.?'' = Inr match_anything"
  by (simp add: new_RegExp_def match_anything_def add_term_def close_frame_def Alternative_def)

lemma new_RegExp_Europe: "new_RegExp (''^Europe'' @ [CHR 0x5C] @ ''/'') = Inr Europe"
  by (simp add: new_RegExp_def Europe_def add_term_def close_frame_def SyntaxCharacter_def)

lemma new_RegExp_starts_with_X: "new_RegExp ''^X'' = Inr starts_with_X"
  by (simp add: new_RegExp_def starts_with_X_def add_term_def close_frame_def)

lemma escape_class_iff: "escape_class c = SyntaxCharacter c"
  by (simp add: escape_class_def SyntaxCharacter_def)

lemma parse_plain_char:
  "\<not> SyntaxCharacter c \<Longrightarrow>
   parse_pattern (c # cs) cur parents l = parse_pattern cs (add_term (RChar c) cur) parents AfterAtom"
  by (auto simp: SyntaxCharacter_def)

lemma parse_escaped_char:
  "SyntaxCharacter c \<Longrightarrow>
   parse_pattern (CHR 0x5C # c # cs) cur parents l = parse_pattern cs (add_term (RChar c) cur) parents AfterAtom"
  by (auto simp: SyntaxCharacter_def)

text \<open>An escaped string is read as the sequence of its characters, whatever they are.\<close>

lemma parse_escape:
  "parse_pattern (RegExp_escape v @ rest) (alts, ts) parents l =
   parse_pattern rest (alts, rev (map RChar v) @ ts) parents (if v = [] then l else AfterAtom)"
proof (induction v arbitrary: ts l)
  case Nil
  then show ?case by (simp add: RegExp_escape_def)
next
  case (Cons c v)
  have step: "parse_pattern (RegExp_escape (c # v) @ rest) (alts, ts) parents l =
      parse_pattern (RegExp_escape v @ rest) (alts, RChar c # ts) parents AfterAtom"
  proof (cases "SyntaxCharacter c")
    case True
    then show ?thesis
      using parse_escaped_char [OF True, of "RegExp_escape v @ rest" "(alts, ts)" parents l]
      by (simp add: RegExp_escape_def escape_class_iff add_term_def)
  next
    case False
    then show ?thesis
      using parse_plain_char [OF False, of "RegExp_escape v @ rest" "(alts, ts)" parents l]
      by (simp add: RegExp_escape_def escape_class_iff add_term_def)
  qed
  show ?case
    unfolding step Cons.IH by simp
qed

lemma parse_bar:
  "parse_pattern (CHR ''|'' # cs) cur parents l = parse_pattern cs (next_alternative cur) parents NoAtom"
  by simp

lemma parse_join:
  "vs \<noteq> [] \<Longrightarrow>
   \<exists>l'. parse_pattern (Array_join ''|'' (map RegExp_escape vs) @ rest) (alts, []) parents l =
     parse_pattern rest (rev (map literal (butlast vs)) @ alts, rev (map RChar (last vs))) parents l'"
proof (induction vs arbitrary: alts l)
  case Nil
  then show ?case by simp
next
  case (Cons v vs)
  show ?case
  proof (cases vs)
    case Nil
    then show ?thesis
      using parse_escape [of v rest alts "[]" parents l] by auto
  next
    case (Cons w ws)
    have "parse_pattern (Array_join ''|'' (map RegExp_escape (v # vs)) @ rest) (alts, []) parents l =
        parse_pattern (RegExp_escape v @ (CHR ''|'' # Array_join ''|'' (map RegExp_escape vs) @ rest)) (alts, []) parents l"
      by (simp add: Cons)
    also have "\<dots> = parse_pattern (Array_join ''|'' (map RegExp_escape vs) @ rest) (literal v # alts, []) parents NoAtom"
      unfolding parse_escape parse_bar by (simp add: next_alternative_def literal_def)
    finally show ?thesis
      using Cons.IH [of "literal v # alts" NoAtom] Cons by auto
  qed
qed

lemma parse_exact:
  assumes "vs \<noteq> []"
  shows "parse_pattern (''^(?:'' @ Array_join ''|'' (map RegExp_escape vs) @ '')$'') ([], []) [] NoAtom
    = Inr (exact_matcher vs)"
proof -
  obtain l' where j: "parse_pattern (Array_join ''|'' (map RegExp_escape vs) @ '')$'') ([], []) [([], [RBol])] NoAtom =
     parse_pattern '')$'' (rev (map literal (butlast vs)) @ [], rev (map RChar (last vs))) [([], [RBol])] l'"
    using parse_join [OF assms, of "'')$''" "[]" "[([], [RBol])]" NoAtom] by blast
  have "map literal (butlast vs) @ [literal (last vs)] = map literal vs"
    using assms by (metis append_butlast_last_id list.simps(9) map_append list.simps(8))
  then have c: "close_frame (rev (map literal (butlast vs)), rev (map RChar (last vs))) = Disjunction (map literal vs)"
    by (simp add: close_frame_def literal_def [symmetric])
  have "parse_pattern (''^(?:'' @ Array_join ''|'' (map RegExp_escape vs) @ '')$'') ([], []) [] NoAtom
     = parse_pattern (Array_join ''|'' (map RegExp_escape vs) @ '')$'') ([], []) [([], [RBol])] NoAtom"
    by (simp add: add_term_def)
  also have "\<dots> = parse_pattern [] ([], [REol, Disjunction (map literal vs), RBol]) [] NoAtom"
    unfolding j by (simp add: c add_term_def)
  also have "\<dots> = Inr (exact_matcher vs)"
    by (simp add: close_frame_def Alternative_def exact_matcher_def)
  finally show ?thesis .
qed

lemma parse_exact_empty:
  "parse_pattern (''^(?:'' @ [] @ '')$'') ([], []) [] NoAtom = Inr (exact_matcher [[]])"
  using parse_exact [of "[[]]"] by (simp add: RegExp_escape_def)

lemma ends_literal:
  "ends (literal v) s i = (if take (length v) (drop i s) = v then [i + length v] else [])"
proof (induction v arbitrary: i)
  case Nil
  then show ?case by (simp add: literal_def Alternative_def)
next
  case (Cons c v)
  have unfold: "literal (c # v) = RSeq (RChar c) (literal v)"
    by (simp add: literal_def Alternative_def)
  show ?case
  proof (cases "i < length s")
    case True
    then have "drop i s = s ! i # drop (Suc i) s"
      by (simp add: Cons_nth_drop_Suc)
    then show ?thesis
      using True by (auto simp: unfold Cons.IH)
  next
    case False
    then show ?thesis by (simp add: unfold)
  qed
qed

lemma ends_Disjunction:
  "as \<noteq> [] \<Longrightarrow> ends (Disjunction as) s i = concat (map (\<lambda>a. ends a s i) as)"
  by (induction as rule: Disjunction.induct) auto

lemma ends_exact_matcher:
  assumes "vs \<noteq> []"
  shows "ends (exact_matcher vs) s i \<noteq> [] \<longleftrightarrow> i = 0 \<and> s \<in> set vs"
proof -
  have d: "ends (Disjunction (map literal vs)) s 0 =
      concat (map (\<lambda>v. if take (length v) s = v then [length v] else []) vs)"
    using assms by (simp add: ends_Disjunction ends_literal comp_def cong: if_cong)
  have "(\<exists>j \<in> set (ends (Disjunction (map literal vs)) s 0). j = length s) \<longleftrightarrow> s \<in> set vs"
    unfolding d by (auto split: if_splits)
  then show ?thesis
    by (auto simp: exact_matcher_def split: if_splits)
qed

lemma test_exact_matcher:
  assumes "vs \<noteq> []"
  shows "RegExp_test \<lparr>OriginalSource = src, RegExpMatcher = exact_matcher vs\<rparr> s \<longleftrightarrow> s \<in> set vs"
  by (auto simp: RegExp_test_def list_ex_iff ends_exact_matcher [OF assms])

lemma test_match_anything: "RegExp_test match_anything s"
proof -
  have "ends (RegExpMatcher match_anything) s 0 \<noteq> []"
    by (simp add: match_anything_def)
  then show ?thesis
    unfolding RegExp_test_def list_ex_iff by (intro bexI [of _ 0]) auto
qed

section \<open>Properties of createMatchers\<close>

lemma map_escape_defined:
  "\<forall>v\<in>set arr. v \<noteq> JUndefined \<and> v \<noteq> JNull \<Longrightarrow>
   map_escape arr = Inr (map (\<lambda>v. RegExp_escape (ToString v)) arr)"
  by (induction arr) (auto simp: toString_def)

lemma exactRegExp_join:
  "vs \<noteq> [] \<Longrightarrow>
   exactRegExp (Array_join ''|'' (map RegExp_escape vs)) =
     Inr \<lparr>OriginalSource = ''^(?:'' @ Array_join ''|'' (map RegExp_escape vs) @ '')$'',
          RegExpMatcher = exact_matcher vs\<rparr>"
  using parse_exact [of vs] by (simp add: exactRegExp_def new_RegExp_def)

lemma arrayRegExp_defined:
  assumes "arr \<noteq> []" and "\<forall>v\<in>set arr. v \<noteq> JUndefined \<and> v \<noteq> JNull"
  shows "arrayRegExp arr =
     Inr \<lparr>OriginalSource = ''^(?:'' @ Array_join ''|'' (map (\<lambda>v. RegExp_escape (ToString v)) arr) @ '')$'',
          RegExpMatcher = exact_matcher (map ToString arr)\<rparr>"
  using exactRegExp_join [of "map ToString arr"] assms
  by (simp add: arrayRegExp_def map_escape_defined comp_def)

text \<open>The loop splits the array into its RegExps and its other elements, each in order.\<close>

lemma forEach_push_partition:
  "\<exists>rs. forEach_push arr (ret, strings) = (ret @ rs, strings @ filter (\<lambda>v. \<not> instanceof_RegExp v) arr)
     \<and> map JRegExp rs = filter instanceof_RegExp arr"
proof (induction arr "(ret, strings)" arbitrary: ret strings rule: forEach_push.induct)
  case 1
  then show ?case by simp
next
  case (2 r mzs ret strings)
  then obtain rs where "forEach_push mzs (ret @ [r], strings) =
      ((ret @ [r]) @ rs, strings @ filter (\<lambda>v. \<not> instanceof_RegExp v) mzs)"
      "map JRegExp rs = filter instanceof_RegExp mzs"
    by blast
  then show ?case
    by (intro exI [of _ "r # rs"]) simp
qed auto

lemma createMatchers_single:
  assumes "ToBoolean v" and "\<not> instanceof_RegExp v" and "\<not> Array_isArray v"
  shows "createMatchers v =
     Inr [\<lparr>OriginalSource = ''^(?:'' @ RegExp_escape (ToString v) @ '')$'',
           RegExpMatcher = exact_matcher [ToString v]\<rparr>]"
proof -
  have "toString v = Inr (ToString v)"
    using assms by (cases v) (auto simp: toString_def)
  then show ?thesis
    using assms exactRegExp_join [of "[ToString v]"]
    by (cases v) (auto simp: createMatchers_def)
qed

lemma createMatchers_strings:
  assumes "arr \<noteq> []"
    and "\<forall>v\<in>set arr. v \<noteq> JUndefined \<and> v \<noteq> JNull \<and> \<not> instanceof_RegExp v"
  shows "createMatchers (JArray arr) =
     Inr [\<lparr>OriginalSource =
            ''^(?:'' @ Array_join ''|'' (map (\<lambda>v. RegExp_escape (ToString v)) arr) @ '')$'',
           RegExpMatcher = exact_matcher (map ToString arr)\<rparr>]"
proof -
  have "\<not> list_ex instanceof_RegExp arr"
    using assms(2) by (simp add: list_ex_iff)
  moreover have "\<forall>v\<in>set arr. v \<noteq> JUndefined \<and> v \<noteq> JNull"
    using assms(2) by blast
  ultimately show ?thesis
    using arrayRegExp_defined [OF assms(1)] by (simp add: createMatchers_def)
qed

lemma createMatchers_Nil:
  "createMatchers (JArray []) =
     Inr [\<lparr>OriginalSource = ''^(?:)$'', RegExpMatcher = exact_matcher [[]]\<rparr>]"
  using parse_exact_empty
  by (simp add: createMatchers_def arrayRegExp_def exactRegExp_def new_RegExp_def)

text \<open>
  C1, as the code has it: for the empty array \<open>createMatchers\<close> returns one matcher, the
  anchored empty alternation \<^verbatim>\<open>^(?:)$\<close>, and this matcher matches the empty string and
  nothing else. The array holds no RegExp, so the shortcut for arrays without a RegExp
  returns before the loop that would have left the result empty.
\<close>

theorem createMatchers_empty_array:
  "\<exists>r. createMatchers (JArray []) = Inr [r]
     \<and> OriginalSource r = ''^(?:)$''
     \<and> RegExpMatcher r = RSeq RBol (RSeq REmpty (RSeq REol REmpty))
     \<and> (\<forall>s. RegExp_test r s \<longleftrightarrow> s = [])"
  using createMatchers_Nil test_exact_matcher [of "[[]]" "''^(?:)$''"]
  by (simp add: exact_matcher_def literal_def Alternative_def)

text \<open>
  C1, as the claim states it, fails: the result for the empty array is not the empty
  matcher set, and it has one element.
\<close>

theorem createMatchers_empty_array_not_empty:
  "createMatchers (JArray []) \<noteq> Inr []
   \<and> (\<exists>ms. createMatchers (JArray []) = Inr ms \<and> length ms = 1)"
  using createMatchers_Nil by simp

text \<open>
  C4, as the claim states it, fails: an element that is not a RegExp counts as a plain
  value, and \<^verbatim>\<open>undefined\<close> is such an element, but at \<^verbatim>\<open>[/^X/, undefined]\<close> the call
  \<^verbatim>\<open>value.toString()\<close> of \<open>arrayRegExp\<close> throws a TypeError and no matcher is returned.
\<close>

theorem createMatchers_mixed_undefined:
  "createMatchers (JArray [JRegExp starts_with_X, JUndefined]) = Inl TypeError
   \<and> instanceof_RegExp (JRegExp starts_with_X)
   \<and> \<not> instanceof_RegExp JUndefined"
  by (simp add: createMatchers_def arrayRegExp_def toString_def)

text \<open>
  C4, as the code has it: an array that is not empty and has no \<^verbatim>\<open>undefined\<close> and no
  \<^verbatim>\<open>null\<close> element compiles to its RegExp elements, unchanged and in their order,
  followed by one combined matcher for the other elements when there is such an element:
  its pattern is the anchored alternation of their escaped string forms and it matches
  exactly these string forms. The number of matchers is the number of RegExp elements,
  plus one when some element is not a RegExp.
\<close>

theorem createMatchers_mixed_array:
  assumes "arr \<noteq> []" and "\<forall>v\<in>set arr. v \<noteq> JUndefined \<and> v \<noteq> JNull"
  shows "\<exists>ret combined. createMatchers (JArray arr) = Inr (ret @ combined)
     \<and> map JRegExp ret = filter instanceof_RegExp arr
     \<and> (if list_all instanceof_RegExp arr then combined = []
         else \<exists>r. combined = [r]
           \<and> OriginalSource r =
                ''^(?:'' @ Array_join ''|''
                   (map (\<lambda>v. RegExp_escape (ToString v)) (filter (\<lambda>v. \<not> instanceof_RegExp v) arr))
                 @ '')$''
           \<and> (\<forall>s. RegExp_test r s \<longleftrightarrow> s \<in> ToString ` {v \<in> set arr. \<not> instanceof_RegExp v}))
     \<and> length (ret @ combined) =
         length (filter instanceof_RegExp arr) + (if list_all instanceof_RegExp arr then 0 else 1)"
proof (cases "list_ex instanceof_RegExp arr")
  case False
  then have none: "filter instanceof_RegExp arr = []" "filter (\<lambda>v. \<not> instanceof_RegExp v) arr = arr"
    by (auto simp: list_ex_iff filter_empty_conv)
  have notall: "\<not> list_all instanceof_RegExp arr"
    using False assms(1) by (cases arr) (auto simp: list_ex_iff list_all_iff)
  have set: "{v \<in> set arr. \<not> instanceof_RegExp v} = set arr"
    using False by (auto simp: list_ex_iff)
  have plain: "\<forall>v\<in>set arr. v \<noteq> JUndefined \<and> v \<noteq> JNull \<and> \<not> instanceof_RegExp v"
    using False assms(2) by (auto simp: list_ex_iff)
  let ?r = "\<lparr>OriginalSource =
            ''^(?:'' @ Array_join ''|'' (map (\<lambda>v. RegExp_escape (ToString v)) arr) @ '')$'',
           RegExpMatcher = exact_matcher (map ToString arr)\<rparr>"
  have "createMatchers (JArray arr) = Inr ([] @ [?r])"
    using createMatchers_strings [OF assms(1) plain] by simp
  moreover have "\<forall>s. RegExp_test ?r s \<longleftrightarrow> s \<in> ToString ` set arr"
    using test_exact_matcher [of "map ToString arr"] assms(1) by simp
  ultimately show ?thesis
    unfolding none set using notall
    by (intro exI [of _ "[]"] exI [of _ "[?r]"]) simp
next
  case True
  let ?strings = "filter (\<lambda>v. \<not> instanceof_RegExp v) arr"
  obtain rs where rs: "forEach_push arr ([], []) = (rs, ?strings)"
      "map JRegExp rs = filter instanceof_RegExp arr"
    using forEach_push_partition [of arr "[]" "[]"] by auto
  have len: "length rs = length (filter instanceof_RegExp arr)"
    using rs(2) by (metis length_map)
  show ?thesis
  proof (cases "?strings = []")
    case True
    then have "list_all instanceof_RegExp arr"
      by (auto simp: filter_empty_conv list_all_iff)
    then show ?thesis
      using \<open>list_ex instanceof_RegExp arr\<close> True rs len
      by (intro exI [of _ rs] exI [of _ "[]"]) (simp add: createMatchers_def)
  next
    case False
    then have notall: "\<not> list_all instanceof_RegExp arr"
      by (auto simp: filter_empty_conv list_all_iff)
    have def: "\<forall>v\<in>set ?strings. v \<noteq> JUndefined \<and> v \<noteq> JNull"
      using assms(2) by simp
    have set: "set (map ToString ?strings) = ToString ` {v \<in> set arr. \<not> instanceof_RegExp v}"
      by auto
    let ?r = "\<lparr>OriginalSource =
            ''^(?:'' @ Array_join ''|'' (map (\<lambda>v. RegExp_escape (ToString v)) ?strings) @ '')$'',
           RegExpMatcher = exact_matcher (map ToString ?strings)\<rparr>"
    have "createMatchers (JArray arr) = Inr (rs @ [?r])"
      using \<open>list_ex instanceof_RegExp arr\<close> False rs(1) arrayRegExp_defined [OF False def]
      by (simp add: createMatchers_def)
    moreover have "\<forall>s. RegExp_test ?r s \<longleftrightarrow> s \<in> ToString ` {v \<in> set arr. \<not> instanceof_RegExp v}"
      using test_exact_matcher [of "map ToString ?strings"] False set by simp
    ultimately show ?thesis
      using rs(2) len notall
      by (intro exI [of _ rs] exI [of _ "[?r]"]) simp
  qed
qed

text \<open>
  C4 at \<^verbatim>\<open>[/^Europe\//, "UTC"]\<close>: exactly two matchers, the RegExp itself and a matcher
  of the string \<^verbatim>\<open>UTC\<close> alone.
\<close>

theorem createMatchers_Europe_UTC:
  "\<exists>r. createMatchers (JArray [JRegExp Europe, JString ''UTC'']) = Inr [Europe, r]
     \<and> length [Europe, r] = 2
     \<and> (\<forall>s. RegExp_test r s \<longleftrightarrow> s = ''UTC'')"
proof -
  have s: "{v \<in> set [JRegExp Europe, JString ''UTC'']. \<not> instanceof_RegExp v} = {JString ''UTC''}"
    by auto
  obtain ret r where c: "createMatchers (JArray [JRegExp Europe, JString ''UTC'']) = Inr (ret @ [r])"
      "map JRegExp ret = [JRegExp Europe]"
      "\<forall>s. RegExp_test r s \<longleftrightarrow> s \<in> ToString ` {JString ''UTC''}"
    using createMatchers_mixed_array [of "[JRegExp Europe, JString ''UTC'']"] unfolding s by auto
  from c(2) have "ret = [Europe]"
    by (cases ret) auto
  with c(1,3) show ?thesis
    by (intro exI [of _ r]) simp
qed

text \<open>
  C5: a truthy value that is neither a RegExp nor an array compiles to one matcher. Its
  pattern is \<^verbatim>\<open>^(?:\<close> escaped \<^verbatim>\<open>)$\<close>, where escaped is the string form of the value with a
  backslash before each of the characters \<^verbatim>\<open>\ ^ $ * + ? . ( ) | [ ] { }\<close>, and the matcher
  matches the string form of the value and no other string.
\<close>

theorem createMatchers_single_value:
  assumes "ToBoolean v" and "\<not> instanceof_RegExp v" and "\<not> Array_isArray v"
  shows "\<exists>r. createMatchers v = Inr [r]
     \<and> OriginalSource r = ''^(?:'' @ RegExp_escape (ToString v) @ '')$''
     \<and> RegExp_escape (ToString v) =
          concat (map (\<lambda>c. if c \<in> set (CHR 0x5C # ''^$*+?.()|[]{}'') then [CHR 0x5C, c] else [c])
            (ToString v))
     \<and> (\<forall>s. RegExp_test r s \<longleftrightarrow> s = ToString v)"
  using createMatchers_single [OF assms] test_exact_matcher [of "[ToString v]"]
  by (simp add: RegExp_escape_def escape_class_def)

text \<open>C5 at \<^verbatim>\<open>"a.b"\<close>: the dot is escaped, \<^verbatim>\<open>a.b\<close> matches and \<^verbatim>\<open>axb\<close> does not.\<close>

theorem createMatchers_a_dot_b:
  "\<exists>r. createMatchers (JString ''a.b'') = Inr [r]
     \<and> OriginalSource r = ''^(?:a'' @ [CHR 0x5C] @ ''.b)$''
     \<and> RegExp_test r ''a.b'' \<and> \<not> RegExp_test r ''axb''"
proof -
  obtain r where "createMatchers (JString ''a.b'') = Inr [r]"
      "OriginalSource r = ''^(?:'' @ RegExp_escape ''a.b'' @ '')$''"
      "\<forall>s. RegExp_test r s \<longleftrightarrow> s = ''a.b''"
    using createMatchers_single_value [of "JString ''a.b''"] by auto
  then show ?thesis
    by (intro exI [of _ r]) (simp add: RegExp_escape_def escape_class_def)
qed

text \<open>
  C6, as the claim states it, fails: \<^verbatim>\<open>null\<close> is no RegExp, and at \<^verbatim>\<open>["a", null]\<close> the
  call \<^verbatim>\<open>value.toString()\<close> of \<open>arrayRegExp\<close> throws a TypeError and no matcher is
  returned.
\<close>

theorem createMatchers_plain_null:
  "createMatchers (JArray [JString ''a'', JNull]) = Inl TypeError
   \<and> \<not> instanceof_RegExp (JString ''a'')
   \<and> \<not> instanceof_RegExp JNull"
  by (simp add: createMatchers_def arrayRegExp_def toString_def)

text \<open>
  C6, as the code has it: an array that is not empty and holds no RegExp, no
  \<^verbatim>\<open>undefined\<close> and no \<^verbatim>\<open>null\<close> compiles to exactly one matcher: the anchored
  alternation of the escaped string forms of its elements, which matches exactly these
  string forms.
\<close>

theorem createMatchers_plain_array:
  assumes "arr \<noteq> []"
    and "\<forall>v\<in>set arr. v \<noteq> JUndefined \<and> v \<noteq> JNull \<and> \<not> instanceof_RegExp v"
  shows "\<exists>r. createMatchers (JArray arr) = Inr [r]
     \<and> OriginalSource r =
          ''^(?:'' @ Array_join ''|'' (map (\<lambda>v. RegExp_escape (ToString v)) arr) @ '')$''
     \<and> (\<forall>s. RegExp_test r s \<longleftrightarrow> s \<in> ToString ` set arr)"
  using createMatchers_strings [OF assms] test_exact_matcher [of "map ToString arr"] assms(1)
  by simp

text \<open>
  C6 at \<^verbatim>\<open>["a","b","c"]\<close>: one matcher, which matches \<^verbatim>\<open>a\<close>, \<^verbatim>\<open>b\<close> and \<^verbatim>\<open>c\<close> and rejects
  \<^verbatim>\<open>ab\<close> and the empty string.
\<close>

theorem createMatchers_a_b_c:
  "\<exists>r. createMatchers (JArray [JString ''a'', JString ''b'', JString ''c'']) = Inr [r]
     \<and> OriginalSource r = ''^(?:a|b|c)$''
     \<and> RegExp_test r ''a'' \<and> RegExp_test r ''b'' \<and> RegExp_test r ''c''
     \<and> \<not> RegExp_test r ''ab'' \<and> \<not> RegExp_test r []"
proof -
  obtain r where "createMatchers (JArray [JString ''a'', JString ''b'', JString ''c'']) = Inr [r]"
      "OriginalSource r = ''^(?:'' @ Array_join ''|'' (map RegExp_escape [''a'', ''b'', ''c'']) @ '')$''"
      "\<forall>s. RegExp_test r s \<longleftrightarrow> s \<in> {''a'', ''b'', ''c''}"
    using createMatchers_plain_array [of "[JString ''a'', JString ''b'', JString ''c'']"] by auto
  then show ?thesis
    by (intro exI [of _ r]) (simp add: RegExp_escape_def escape_class_def)
qed

text \<open>
  C7: for \<^verbatim>\<open>undefined\<close> and for \<^verbatim>\<open>null\<close>, \<open>createMatchers\<close> returns exactly one matcher,
  the literal \<^verbatim>\<open>/.?/\<close>, and this matcher matches every string.
\<close>

theorem createMatchers_absent:
  "createMatchers JUndefined = Inr [match_anything]
   \<and> createMatchers JNull = Inr [match_anything]
   \<and> length [match_anything] = 1
   \<and> (\<forall>s. RegExp_test match_anything s)"
  by (simp add: createMatchers_def test_match_anything)

text \<open>
  C7 on the empty string, on a string of metacharacters and on a line terminator.
\<close>

theorem createMatchers_absent_examples:
  "\<exists>r. createMatchers JUndefined = Inr [r] \<and> createMatchers JNull = Inr [r]
     \<and> RegExp_test r [] \<and> RegExp_test r ''a.b*(c)[d]'' \<and> RegExp_test r [CHR 0x0A]"
  using createMatchers_absent by blast

section \<open>Properties of anyMatch\<close>

lemma test_starts_with_X: "RegExp_test starts_with_X ''X''" "\<not> RegExp_test starts_with_X ''Y''"
  by code_simp+

lemma test_Europe: "RegExp_test Europe ''Europe/Paris''" "\<not> RegExp_test Europe ''UTC''"
  by code_simp+

lemma createMatchers_X_Y: "createMatchers (JArray [JString ''X'', JString ''Y'']) = Inr [X_or_Y]"
  using createMatchers_strings [of "[JString ''X'', JString ''Y'']"]
  by (simp add: X_or_Y_def RegExp_escape_def escape_class_def)

lemma createMatchers_starts_with_X:
  "createMatchers (JArray [JRegExp starts_with_X]) = Inr [starts_with_X]"
  by (simp add: createMatchers_def)

lemma test_X_or_Y: "RegExp_test X_or_Y s \<longleftrightarrow> s = ''X'' \<or> s = ''Y''"
  using test_exact_matcher [of "[''X'', ''Y'']" "''^(?:X|Y)$''" s] by (simp add: X_or_Y_def)

text \<open>
  C2: with the primary set alone, \<open>anyMatch\<close> holds exactly when some matcher of the set
  matches the candidate, except that it holds for every candidate when the set is
  \<^verbatim>\<open>undefined\<close>, \<^verbatim>\<open>null\<close> or empty. With a secondary set, \<open>anyMatch\<close> is the conjunction
  of the two results with one set each (the equation holds as well when the third
  argument is left out, since \<open>anyMatch\<close> of an absent set is true).
\<close>

theorem anyMatch_spec:
  "(anyMatch item regExpMatchers Undefined \<longleftrightarrow>
      (case regExpMatchers of
         Defined ms \<Rightarrow> ms = [] \<or> (\<exists>m\<in>set ms. RegExp_test m item)
       | _ \<Rightarrow> True))
   \<and> anyMatch item regExpMatchers extraMatchers =
       (anyMatch item regExpMatchers Undefined \<and> anyMatch item extraMatchers Undefined)"
proof -
  have one: "\<And>p. anyMatch item p Undefined \<longleftrightarrow>
      (case p of Defined ms \<Rightarrow> ms = [] \<or> (\<exists>m\<in>set ms. RegExp_test m item) | _ \<Rightarrow> True)"
    by (subst anyMatch.simps) (auto simp: list_ex_iff split: js_optional.splits)
  have two: "anyMatch item regExpMatchers extraMatchers =
       (anyMatch item regExpMatchers Undefined \<and> anyMatch item extraMatchers Undefined)"
  proof (cases "extraMatchers = Undefined")
    case True
    then show ?thesis by (simp add: one)
  next
    case False
    then show ?thesis by (subst anyMatch.simps) simp
  qed
  from one two show ?thesis by blast
qed

text \<open>
  C2 on the sets compiled from \<^verbatim>\<open>["X","Y"]\<close> and \<^verbatim>\<open>[/^X/]\<close>: \<^verbatim>\<open>X\<close> satisfies both,
  \<^verbatim>\<open>Y\<close> fails the second; matching is case-sensitive; an empty, an absent and a
  \<^verbatim>\<open>null\<close> set match everything.
\<close>

theorem anyMatch_spec_witness:
  "anyMatch ''X'' (Defined [X_or_Y]) (Defined [starts_with_X])
   \<and> \<not> anyMatch ''Y'' (Defined [X_or_Y]) (Defined [starts_with_X])
   \<and> anyMatch ''Y'' (Defined [X_or_Y]) Undefined
   \<and> \<not> anyMatch ''y'' (Defined [X_or_Y]) Undefined
   \<and> anyMatch ''Y'' (Defined []) Undefined
   \<and> anyMatch ''Y'' Undefined Undefined
   \<and> anyMatch ''Y'' (Defined [X_or_Y]) Null"
  using anyMatch_spec [of "''X''" "Defined [X_or_Y]" "Defined [starts_with_X]"]
    anyMatch_spec [of "''Y''" "Defined [X_or_Y]" "Defined [starts_with_X]"]
    anyMatch_spec [of "''X''" "Defined [starts_with_X]" Undefined]
    anyMatch_spec [of "''Y''" "Defined [starts_with_X]" Undefined]
    anyMatch_spec [of "''y''" "Defined [X_or_Y]" Undefined]
    anyMatch_spec [of "''Y''" "Defined []" Undefined]
    anyMatch_spec [of "''Y''" "Undefined" Undefined]
    anyMatch_spec [of "''Y''" "Null" Undefined]
    anyMatch_spec [of "''Y''" "Defined [X_or_Y]" Null]
  by (simp add: test_X_or_Y test_starts_with_X)

section \<open>Properties of the cache key and the cache file\<close>

lemma digit_char_digit: "d < 10 \<Longrightarrow> digit_char d \<in> set ''0123456789''"
  unfolding digit_char_def by (rule nth_mem) simp

lemma hex_char_hex: "n < 16 \<Longrightarrow> hex_char n \<in> set ''0123456789abcdef''"
  unfolding hex_char_def by (rule nth_mem) simp

lemma decimal_digits: "decimal n \<noteq> [] \<and> set (decimal n) \<subseteq> set ''0123456789''"
proof (induction n rule: decimal.induct)
  case (1 n)
  show ?case
  proof (cases "n < 10")
    case True
    then show ?thesis
      using digit_char_digit [of n] by (subst (1 2) decimal.simps) simp
  next
    case False
    then show ?thesis
      using 1 digit_char_digit [of "n mod 10"] by (subst (1 2) decimal.simps) simp
  qed
qed


lemma decimal_not_Infinity: "decimal n \<noteq> ''Infinity''" "decimal n \<noteq> ''-Infinity''" "decimal n \<noteq> ''NaN''"
proof -
  have "CHR ''I'' \<notin> set (decimal n)" "CHR ''-'' \<notin> set (decimal n)" "CHR ''N'' \<notin> set (decimal n)"
    using decimal_digits [of n] by auto
  then show "decimal n \<noteq> ''Infinity''" "decimal n \<noteq> ''-Infinity''" "decimal n \<noteq> ''NaN''"
    by auto
qed

lemma JSON_number_cong:
  assumes "Number_toString a = Number_toString b"
  shows "JSON_number a = JSON_number b"
proof (cases a)
  case (Finite i)
  show ?thesis
  proof (cases b)
    case (Finite j)
    then show ?thesis using assms \<open>a = Finite i\<close> by simp
  next
    case PosInfinity
    then show ?thesis
      using assms \<open>a = Finite i\<close> decimal_not_Infinity [of "nat i"] by (simp split: if_splits)
  next
    case NegInfinity
    then show ?thesis
      using assms \<open>a = Finite i\<close> decimal_not_Infinity [of "nat i"] decimal_not_Infinity [of "nat (- i)"]
      by (simp split: if_splits)
  next
    case NaN
    then show ?thesis
      using assms \<open>a = Finite i\<close> decimal_not_Infinity [of "nat i"] by (simp split: if_splits)
  qed
next
  case PosInfinity
  then show ?thesis
    using assms decimal_not_Infinity by (cases b) (auto split: if_splits)
next
  case NegInfinity
  then show ?thesis
    using assms decimal_not_Infinity by (cases b) (auto split: if_splits)
next
  case NaN
  then show ?thesis
    using assms decimal_not_Infinity by (cases b) (auto split: if_splits)
qed

lemma cacheKey_cong:
  assumes "ToString (matchZones c1) = ToString (matchZones c2)"
    and "ToString (matchCountries c1) = ToString (matchCountries c2)"
    and "Number_toString (startYear c1) = Number_toString (startYear c2)"
    and "Number_toString (endYear c1) = Number_toString (endYear c2)"
  shows "cacheKey tz c1 = cacheKey tz c2"
  using assms(1,2) JSON_number_cong [OF assms(3)] JSON_number_cong [OF assms(4)]
  by (simp add: cacheKey_def)

lemma cacheFile_key:
  "cacheKey tz c1 = cacheKey tz' c2 \<Longrightarrow> cacheFile env tz c1 dirPath st = cacheFile env tz' c2 dirPath st"
  by (simp add: cacheFile_def)

text \<open>
  C3: for one version tag, two configurations whose zone and country specifications have
  the same string forms and whose year bounds have the same string forms have the same
  cache key, which lists version, zones, countries and dates in this order; \<open>cacheFile\<close>
  then returns the same result for both, in every environment, for every cache root and
  from every state.
\<close>

theorem cacheKey_deterministic:
  assumes "ToString (matchZones c1) = ToString (matchZones c2)"
    and "ToString (matchCountries c1) = ToString (matchCountries c2)"
    and "Number_toString (startYear c1) = Number_toString (startYear c2)"
    and "Number_toString (endYear c1) = Number_toString (endYear c2)"
  shows "cacheKey tz c1 = cacheKey tz c2
    \<and> cacheKey tz c1 =
        ''{'' @ QuoteJSONString ''version'' @ '':'' @ QuoteJSONString (version tz)
        @ '','' @ QuoteJSONString ''zones'' @ '':'' @ QuoteJSONString (ToString (matchZones c1))
        @ '','' @ QuoteJSONString ''countries'' @ '':'' @ QuoteJSONString (ToString (matchCountries c1))
        @ '','' @ QuoteJSONString ''dates'' @ '':['' @ JSON_number (startYear c1) @ '',''
        @ JSON_number (endYear c1) @ '']}''
    \<and> cacheFile env tz c1 dirPath st = cacheFile env tz c2 dirPath st"
  using cacheKey_cong [OF assms] cacheFile_key [of tz c1 tz c2] by (simp add: cacheKey_def)

lemma length_digest_hex: "length (digest_hex d) = 32"
  by (simp add: digest_hex_def)

lemma set_digest_hex: "set (digest_hex d) \<subseteq> set ''0123456789abcdef''"
  unfolding digest_hex_def using hex_char_hex by (auto simp del: set_simps)

text \<open>
  C10: the configurations with \<open>matchZones\<close> \<^verbatim>\<open>["a,b"]\<close> and \<^verbatim>\<open>["a","b"]\<close>, equal
  otherwise, are different and compile to different matchers, and they have the same
  cache key and the same cache file.
\<close>

theorem cacheKey_collision:
  "cacheKey tz (c\<lparr>matchZones := JArray [JString ''a,b'']\<rparr>)
     = cacheKey tz (c\<lparr>matchZones := JArray [JString ''a'', JString ''b'']\<rparr>)
   \<and> c\<lparr>matchZones := JArray [JString ''a,b'']\<rparr> \<noteq> c\<lparr>matchZones := JArray [JString ''a'', JString ''b'']\<rparr>
   \<and> createMatchers (JArray [JString ''a,b'']) \<noteq> createMatchers (JArray [JString ''a'', JString ''b''])
   \<and> cacheFile env tz (c\<lparr>matchZones := JArray [JString ''a,b'']\<rparr>) dirPath st
     = cacheFile env tz (c\<lparr>matchZones := JArray [JString ''a'', JString ''b'']\<rparr>) dirPath st"
proof -
  have m: "createMatchers (JArray [JString ''a,b'']) \<noteq> createMatchers (JArray [JString ''a'', JString ''b''])"
    using createMatchers_strings [of "[JString ''a,b'']"]
      createMatchers_strings [of "[JString ''a'', JString ''b'']"]
    by (simp add: RegExp_escape_def escape_class_def)
  have k: "cacheKey tz (c\<lparr>matchZones := JArray [JString ''a,b'']\<rparr>)
     = cacheKey tz (c\<lparr>matchZones := JArray [JString ''a'', JString ''b'']\<rparr>)"
    by (simp add: cacheKey_def)
  have "matchZones (c\<lparr>matchZones := JArray [JString ''a,b'']\<rparr>)
      \<noteq> matchZones (c\<lparr>matchZones := JArray [JString ''a'', JString ''b'']\<rparr>)"
    by simp
  then have "c\<lparr>matchZones := JArray [JString ''a,b'']\<rparr> \<noteq> c\<lparr>matchZones := JArray [JString ''a'', JString ''b'']\<rparr>"
    by metis
  with k m cacheFile_key [OF k] show ?thesis by simp
qed

text \<open>
  C8: \<open>cacheFile\<close> returns a descriptor whenever \<open>cacheDir\<close> returns a directory. The
  path of the descriptor is that directory (the cache root given, when one is given)
  joined with the file name made of the hexadecimal MD5 digest of the cache key, 32
  digits for 128 bits, and \<^verbatim>\<open>.json\<close>; the flag \<open>exists\<close> is the existence check of this
  path in the world as \<open>cacheDir\<close> left it.
\<close>

theorem cacheFile_descriptor:
  "(\<forall>d st'. cacheDir env dirPath st = (Inr (Defined d), st') \<longrightarrow>
      (\<exists>f. cacheFile env tz c dirPath st = (Inr f, st')))
   \<and> (\<forall>f st'. cacheFile env tz c dirPath st = (Inr f, st') \<longrightarrow>
      (\<exists>d stem. cacheDir env dirPath st = (Inr (Defined d), st')
         \<and> (truthy_path dirPath \<longrightarrow> dirPath = Defined d)
         \<and> stem = digest_hex (crypto_md5 env (cacheKey tz c))
         \<and> 4 * length stem = 128 \<and> set stem \<subseteq> set ''0123456789abcdef''
         \<and> path f = path_join env d (stem @ ''.json'')
         \<and> exists f = fs_existsSync env (path f) (world st')))"
proof (intro conjI allI impI)
  fix d st'
  assume "cacheDir env dirPath st = (Inr (Defined d), st')"
  then show "\<exists>f. cacheFile env tz c dirPath st = (Inr f, st')"
    by (simp add: cacheFile_def Let_def)
next
  fix f st'
  assume a: "cacheFile env tz c dirPath st = (Inr f, st')"
  obtain res st1 where cd: "cacheDir env dirPath st = (res, st1)"
    by (cases "cacheDir env dirPath st")
  from a cd obtain d where d: "res = Inr (Defined d)" "st1 = st'"
      "f = \<lparr>path = path_join env d (digest_hex (crypto_md5 env (cacheKey tz c)) @ ''.json''),
            exists = fs_existsSync env (path_join env d (digest_hex (crypto_md5 env (cacheKey tz c)) @ ''.json'')) (world st')\<rparr>"
    by (auto simp: cacheFile_def Let_def split: sum.splits js_optional.splits)
  have "truthy_path dirPath \<longrightarrow> dirPath = Defined d"
    using cd d(1) by (auto simp: cacheDir_def split: prod.splits option.splits)
  then show "\<exists>d stem. cacheDir env dirPath st = (Inr (Defined d), st')
         \<and> (truthy_path dirPath \<longrightarrow> dirPath = Defined d)
         \<and> stem = digest_hex (crypto_md5 env (cacheKey tz c))
         \<and> 4 * length stem = 128 \<and> set stem \<subseteq> set ''0123456789abcdef''
         \<and> path f = path_join env d (stem @ ''.json'')
         \<and> exists f = fs_existsSync env (path f) (world st')"
    using cd d set_digest_hex [of "crypto_md5 env (cacheKey tz c)"]
    by (intro exI [of _ d] exI [of _ "digest_hex (crypto_md5 env (cacheKey tz c))"])
       (simp add: length_digest_hex)
qed

text \<open>
  C9: without a cache root, with no directory remembered, when \<open>findCacheDir\<close> throws,
  \<open>cacheDir\<close> takes the temporary directory joined with the plugin name, remembers it and
  creates it: the error of \<open>findCacheDir\<close> is not in the result, and the only error left
  is one of \<open>mkdir.sync\<close> on the fallback. When that succeeds, \<open>cacheFile\<close> returns the
  descriptor of the file under the fallback directory.
\<close>

theorem cacheDir_fallback:
  assumes "\<not> truthy_path dirPath"
    and "\<not> truthy_path (cacheDirPath st)"
    and "findCacheDir env pluginName (world st) = (Inl e, w1)"
    and "fallback = path_join env (os_tmpdir env w1) pluginName"
  shows "cacheDir env dirPath st =
      (case mkdir_sync env (Defined fallback) w1 of
         (None, w2) \<Rightarrow> (Inr (Defined fallback), \<lparr>world = w2, cacheDirPath = Defined fallback\<rparr>)
       | (Some e', w2) \<Rightarrow> (Inl e', \<lparr>world = w2, cacheDirPath = Defined fallback\<rparr>))
    \<and> (\<forall>w2. mkdir_sync env (Defined fallback) w1 = (None, w2) \<longrightarrow>
         cacheFile env tz c dirPath st =
           (Inr \<lparr>path = path_join env fallback (digest_hex (crypto_md5 env (cacheKey tz c)) @ ''.json''),
                 exists = fs_existsSync env
                   (path_join env fallback (digest_hex (crypto_md5 env (cacheKey tz c)) @ ''.json'')) w2\<rparr>,
            \<lparr>world = w2, cacheDirPath = Defined fallback\<rparr>))"
proof -
  have cd: "cacheDir env dirPath st =
      (case mkdir_sync env (Defined fallback) w1 of
         (None, w2) \<Rightarrow> (Inr (Defined fallback), \<lparr>world = w2, cacheDirPath = Defined fallback\<rparr>)
       | (Some e', w2) \<Rightarrow> (Inl e', \<lparr>world = w2, cacheDirPath = Defined fallback\<rparr>))"
    using assms by (simp add: cacheDir_def autoGeneratedCacheDir_def split: prod.splits option.splits)
  then show ?thesis
    by (simp add: cacheFile_def Let_def)
qed


text \<open>
  C3 on a zone given as a string and as an array of one string.
\<close>

theorem cacheKey_deterministic_witness:
  "config_string \<noteq> config_array
   \<and> cacheKey example_tzdata config_string = cacheKey example_tzdata config_array
   \<and> cacheFile (example_node False) example_tzdata config_string (Defined ''/cache'') fresh_state
     = cacheFile (example_node False) example_tzdata config_array (Defined ''/cache'') fresh_state"
proof -
  have "matchZones config_string \<noteq> matchZones config_array"
    by (simp add: config_string_def config_array_def)
  then have "config_string \<noteq> config_array"
    by metis
  then show ?thesis
    using cacheKey_deterministic [of config_string config_array example_tzdata
        "example_node False" "Defined ''/cache''" fresh_state]
    by (simp add: config_string_def config_array_def)
qed

text \<open>
  C10 with the other fields fixed: the key is the same, and the two matchers disagree on
  \<^verbatim>\<open>a\<close>.
\<close>

theorem cacheKey_collision_witness:
  "cacheKey example_tzdata (config_string\<lparr>matchZones := JArray [JString ''a,b'']\<rparr>)
     = cacheKey example_tzdata (config_string\<lparr>matchZones := JArray [JString ''a'', JString ''b'']\<rparr>)
   \<and> (\<exists>r1 r2. createMatchers (JArray [JString ''a,b'']) = Inr [r1]
        \<and> createMatchers (JArray [JString ''a'', JString ''b'']) = Inr [r2]
        \<and> \<not> RegExp_test r1 ''a'' \<and> RegExp_test r2 ''a'')"
proof -
  have "\<exists>r1 r2. createMatchers (JArray [JString ''a,b'']) = Inr [r1]
        \<and> createMatchers (JArray [JString ''a'', JString ''b'']) = Inr [r2]
        \<and> \<not> RegExp_test r1 ''a'' \<and> RegExp_test r2 ''a''"
    using createMatchers_strings [of "[JString ''a,b'']"]
      createMatchers_strings [of "[JString ''a'', JString ''b'']"]
      test_exact_matcher [of "[''a,b'']" _ "''a''"] test_exact_matcher [of "[''a'', ''b'']" _ "''a''"]
    by simp
  then show ?thesis
    using cacheKey_collision [of example_tzdata config_string "example_node False" Undefined fresh_state]
    by simp
qed

text \<open>
  C8 with the cache root \<^verbatim>\<open>/cache\<close> in an empty world: the directory is created, the
  file is not there.
\<close>

theorem cacheFile_descriptor_witness:
  "\<exists>f st'. cacheFile (example_node False) example_tzdata config_string (Defined ''/cache'') fresh_state
       = (Inr f, st')
     \<and> path f = ''/cache/''
         @ digest_hex (crypto_md5 (example_node False) (cacheKey example_tzdata config_string))
         @ ''.json''
     \<and> length (path f) = 7 + 32 + 5
     \<and> \<not> exists f
     \<and> world st' = [''/cache'']"
proof -
  let ?st' = "\<lparr>world = [''/cache''], cacheDirPath = Undefined\<rparr> :: string list state"
  note spec = cacheFile_descriptor [of "example_node False" "Defined ''/cache''" fresh_state
      example_tzdata config_string]
  have cd: "cacheDir (example_node False) (Defined ''/cache'') fresh_state = (Inr (Defined ''/cache''), ?st')"
    by (simp add: cacheDir_def example_node_def fresh_state_def)
  with spec obtain f where f: "cacheFile (example_node False) example_tzdata config_string
      (Defined ''/cache'') fresh_state = (Inr f, ?st')"
    by blast
  with spec cd have "4 * length (digest_hex (crypto_md5 (example_node False) (cacheKey example_tzdata config_string))) = 128"
      "path f = path_join (example_node False) ''/cache''
         (digest_hex (crypto_md5 (example_node False) (cacheKey example_tzdata config_string)) @ ''.json'')"
      "exists f = fs_existsSync (example_node False) (path f) (world ?st')"
    by auto
  then have "path f = ''/cache/''
         @ digest_hex (crypto_md5 (example_node False) (cacheKey example_tzdata config_string))
         @ ''.json''"
      "length (path f) = 7 + 32 + 5" "\<not> exists f"
    by (auto simp: example_node_def)
  with f show ?thesis
    by (intro exI [of _ f] exI [of _ ?st']) simp
qed

text \<open>
  C9 in the environment where \<open>findCacheDir\<close> throws: the cache directory is
  \<^verbatim>\<open>/tmp/moment-timezone-data-webpack-plugin\<close>.
\<close>

theorem cacheDir_fallback_witness:
  "cacheDir (example_node True) Undefined fresh_state =
     (Inr (Defined ''/tmp/moment-timezone-data-webpack-plugin''),
      \<lparr>world = [''/tmp/moment-timezone-data-webpack-plugin''],
        cacheDirPath = Defined ''/tmp/moment-timezone-data-webpack-plugin''\<rparr>)
   \<and> (\<exists>f st'. cacheFile (example_node True) example_tzdata config_string Undefined fresh_state
         = (Inr f, st')
       \<and> path f = ''/tmp/moment-timezone-data-webpack-plugin/''
           @ digest_hex (crypto_md5 (example_node True) (cacheKey example_tzdata config_string))
           @ ''.json'')"
  using cacheDir_fallback [of Undefined fresh_state "example_node True" "Error ''EACCES''" "[]"
      "''/tmp/moment-timezone-data-webpack-plugin''" example_tzdata config_string]
  by (simp add: example_node_def fresh_state_def pluginName_def)

end
